theory Spec2Isabelle
  imports Main "HOL-Library.Word" "HOL-Library.AList" "HOL-Library.Stream"
begin

section \<open>Data model\<close>

text \<open>
  The service is built for \<^verbatim>\<open>GOARCH=amd64\<close>, so Go's \<^verbatim>\<open>int\<close>, \<^verbatim>\<open>int64\<close> and
  \<^verbatim>\<open>time.Duration\<close> are all 64-bit two's complement integers. They are modelled as
  64-bit words: \<open>+\<close> and \<open>-\<close> wrap around as in Go, and the signed comparisons of the
  source are \<open><s\<close> and \<open>\<le>s\<close>. The source's \<^verbatim>\<open>a > b\<close> is written \<open>b <s a\<close>.
\<close>

type_synonym int64 = "64 word"
type_synonym go_int = "64 word"
type_synonym duration = "64 word"

text \<open>\<^verbatim>\<open>type CacheEntry struct { Count int64; Limit int; ResetTime int64 }\<close>\<close>

record CacheEntry =
  Count :: int64
  Limit :: go_int
  ResetTime :: int64

text \<open>
  \<^verbatim>\<open>sync.Map\<close> stores values of type \<^verbatim>\<open>interface{}\<close>. A stored value is either a
  \<^verbatim>\<open>*CacheEntry\<close> (possibly the nil pointer) or a value of some other dynamic type; the
  readers' unchecked assertion \<^verbatim>\<open>value.(*CacheEntry)\<close> panics on the latter, and the first
  field access panics on a nil pointer. Every key of the table owns the entry it points
  to (each pointer stored is freshly allocated), so the pointee is kept in place.
\<close>

datatype iface = CacheEntryPtr "CacheEntry option" | OtherValue

datatype 'a outcome = Panic | Return 'a

text \<open>The commands queued on the Redis pipeline, and what \<^verbatim>\<open>pipe.Exec\<close> gives back:
  an error, or the values of \<^verbatim>\<open>incrCmd.Val()\<close> and \<^verbatim>\<open>ttlCmd.Val()\<close>.\<close>

datatype redis_cmd = SetNX string int64 duration | Incr string | TTL string

datatype exec_result = ExecErr | ExecOk int64 duration

text \<open>The errors built by the source: \<^verbatim>\<open>"user ID cannot be empty"\<close>,
  \<^verbatim>\<open>"limit must be greater than 0"\<close>, the error of \<^verbatim>\<open>pipe.Exec\<close>, and
  \<^verbatim>\<open>fmt.Errorf("failed to check rate limit: %w", err)\<close> around another error.\<close>

datatype error =
    EmptyUserID
  | NonPositiveLimit
  | PipelineError
  | CheckFailed error

text \<open>
  The state a call can observe or change: the local table (insertion-ordered association
  list with \<^verbatim>\<open>Load\<close> = \<open>map_of\<close>, \<^verbatim>\<open>Store\<close> = \<open>AList.update\<close>, \<^verbatim>\<open>Delete\<close> =
  \<open>AList.delete\<close>), the successive readings of \<^verbatim>\<open>time.Now().UnixNano()\<close>, the outcomes
  of the successive pipeline executions against the backend, and the pipelines that were
  sent to it (most recent first).
\<close>

record world =
  localCache :: "(string \<times> iface) list"
  clock :: "int64 stream"
  backend :: "exec_result stream"
  issued :: "redis_cmd list list"

text \<open>\<^verbatim>\<open>windowSize: time.Minute\<close> in both constructors, in nanoseconds.
  \<^verbatim>\<open>time.Now().Add(h.windowSize).UnixNano()\<close> is the clock reading plus \<open>windowSize\<close>.\<close>

definition windowSize :: duration where
  "windowSize = 60000000000"

text \<open>\<^verbatim>\<open>NewHybridRateLimitRepository\<close> starts with the empty table \<^verbatim>\<open>sync.Map{}\<close>; the clock and
  the backend are the environment's.\<close>

definition NewHybridRateLimitRepository :: "int64 stream \<Rightarrow> exec_result stream \<Rightarrow> world" where
  "NewHybridRateLimitRepository clk be =
     \<lparr>localCache = [], clock = clk, backend = be, issued = []\<rparr>"

text \<open>\<^verbatim>\<open>time.Now().UnixNano()\<close> takes the next reading; \<^verbatim>\<open>pipe.Exec(ctx)\<close> sends the queued
  commands and takes the backend's next outcome.\<close>

definition time_Now :: "world \<Rightarrow> int64 \<times> world" where
  "time_Now w = (shd (clock w), w\<lparr>clock := stl (clock w)\<rparr>)"

definition Exec :: "world \<Rightarrow> redis_cmd list \<Rightarrow> exec_result \<times> world" where
  "Exec w cmds = (shd (backend w), w\<lparr>backend := stl (backend w), issued := cmds # issued w\<rparr>)"

section \<open>The Redis repository\<close>

text \<open>\<^verbatim>\<open>key := fmt.Sprintf("rate_limit:%s", userId)\<close>\<close>

definition rateLimitKey :: "string \<Rightarrow> string" where
  "rateLimitKey userId = ''rate_limit:'' @ userId"

text \<open>\<^verbatim>\<open>RedisRateLimitRepository.RateLimit\<close>: the request is denied when the pipeline fails.
  Its pipeline has no \<^verbatim>\<open>TTL\<close> command, so the second component of the outcome is not
  read.\<close>

definition Redis_RateLimit :: "world \<Rightarrow> string \<Rightarrow> go_int \<Rightarrow> bool \<times> world" where
  "Redis_RateLimit w userId limit =
     (let key = rateLimitKey userId;
          (r, w1) = Exec w [SetNX key 0 windowSize, Incr key]
      in case r of
           ExecErr \<Rightarrow> (False, w1)
         | ExecOk currentCount ttl \<Rightarrow> (currentCount \<le>s limit, w1))"

text \<open>\<^verbatim>\<open>RedisRateLimitRepository.RateLimitWithDetail\<close>: returns
  \<^verbatim>\<open>(remaining, ttl, nil)\<close>, or the wrapped pipeline error.\<close>

definition Redis_RateLimitWithDetail ::
  "world \<Rightarrow> string \<Rightarrow> go_int \<Rightarrow> (error + go_int \<times> duration) \<times> world" where
  "Redis_RateLimitWithDetail w userId limit =
     (let key = rateLimitKey userId;
          (r, w1) = Exec w [SetNX key 0 windowSize, Incr key, TTL key]
      in case r of
           ExecErr \<Rightarrow> (Inl (CheckFailed PipelineError), w1)
         | ExecOk currentCount ttl \<Rightarrow>
             (let remaining = limit - currentCount;
                  remaining = (if remaining <s 0 then 0 else remaining)
              in (Inr (remaining, ttl), w1)))"

section \<open>The hybrid repository\<close>

text \<open>
  The methods of \<^verbatim>\<open>HybridRateLimitRepository\<close>, statement by statement. A method that
  panics returns \<open>Panic\<close> with the state reached at that point. In \<^verbatim>\<open>checkLocalCache\<close> and
  \<^verbatim>\<open>incrementLocalCache\<close> the type assertion comes before the clock is read and the first
  field access after it; in \<^verbatim>\<open>RateLimitWithDetail\<close> the field is read before the clock.
\<close>

definition checkLocalCache :: "world \<Rightarrow> string \<Rightarrow> go_int \<Rightarrow> bool outcome \<times> world" where
  "checkLocalCache w userId limit =
     (case map_of (localCache w) userId of
        None \<Rightarrow> (Return True, w)
      | Some OtherValue \<Rightarrow> (Panic, w)
      | Some (CacheEntryPtr p) \<Rightarrow>
          (let (now, w1) = time_Now w
           in case p of
                None \<Rightarrow> (Panic, w1)
              | Some entry \<Rightarrow>
                  if ResetTime entry <s now then (Return True, w1)
                  else (Return (Count entry <s limit), w1)))"

definition updateLocalCacheWithRedisValues ::
  "world \<Rightarrow> string \<Rightarrow> go_int \<Rightarrow> go_int \<Rightarrow> duration \<Rightarrow> unit outcome \<times> world" where
  "updateLocalCacheWithRedisValues w userId limit currentCount ttl =
     (let (now, w1) = time_Now w;
          resetTime = now + ttl
      in case map_of (localCache w1) userId of
           None \<Rightarrow>
             (Return (),
              w1\<lparr>localCache := AList.update userId
                    (CacheEntryPtr (Some \<lparr>Count = currentCount, Limit = limit,
                                          ResetTime = resetTime\<rparr>))
                    (localCache w1)\<rparr>)
         | Some OtherValue \<Rightarrow> (Panic, w1)
         | Some (CacheEntryPtr None) \<Rightarrow> (Panic, w1)
         | Some (CacheEntryPtr (Some entry)) \<Rightarrow>
             (Return (),
              w1\<lparr>localCache := AList.update userId
                    (CacheEntryPtr (Some (entry\<lparr>Count := currentCount, Limit := limit,
                                                ResetTime := resetTime\<rparr>)))
                    (localCache w1)\<rparr>))"

definition incrementLocalCache :: "world \<Rightarrow> string \<Rightarrow> go_int \<Rightarrow> unit outcome \<times> world" where
  "incrementLocalCache w userId limit =
     (case map_of (localCache w) userId of
        None \<Rightarrow>
          (let (now, w1) = time_Now w
           in (Return (),
               w1\<lparr>localCache := AList.update userId
                     (CacheEntryPtr (Some \<lparr>Count = 1, Limit = limit,
                                           ResetTime = now + windowSize\<rparr>))
                     (localCache w1)\<rparr>))
      | Some OtherValue \<Rightarrow> (Panic, w)
      | Some (CacheEntryPtr p) \<Rightarrow>
          (let (nowNano, w1) = time_Now w
           in case p of
                None \<Rightarrow> (Panic, w1)
              | Some entry \<Rightarrow>
                  if ResetTime entry <s nowNano then
                    (let (now2, w2) = time_Now w1
                     in (Return (),
                         w2\<lparr>localCache := AList.update userId
                               (CacheEntryPtr (Some (entry\<lparr>Count := 1, Limit := limit,
                                                           ResetTime := now2 + windowSize\<rparr>)))
                               (localCache w2)\<rparr>))
                  else
                    (Return (),
                     w1\<lparr>localCache := AList.update userId
                           (CacheEntryPtr (Some (entry\<lparr>Count := Count entry + 1\<rparr>)))
                           (localCache w1)\<rparr>)))"

definition Hybrid_RateLimit :: "world \<Rightarrow> string \<Rightarrow> go_int \<Rightarrow> bool outcome \<times> world" where
  "Hybrid_RateLimit w userId limit =
     (case checkLocalCache w userId limit of
        (Panic, w1) \<Rightarrow> (Panic, w1)
      | (Return False, w1) \<Rightarrow> (Return False, w1)
      | (Return True, w1) \<Rightarrow>
          (case Redis_RateLimitWithDetail w1 userId limit of
             (Inl err, w2) \<Rightarrow>
               (case incrementLocalCache w2 userId limit of
                  (Panic, w3) \<Rightarrow> (Panic, w3)
                | (Return u, w3) \<Rightarrow>
                    (case map_of (localCache w3) userId of
                       None \<Rightarrow> (Return True, w3)
                     | Some OtherValue \<Rightarrow> (Panic, w3)
                     | Some (CacheEntryPtr None) \<Rightarrow> (Panic, w3)
                     | Some (CacheEntryPtr (Some entry)) \<Rightarrow>
                         (Return (Count entry <s limit), w3)))
           | (Inr (currentCount, ttl), w2) \<Rightarrow>
               (case updateLocalCacheWithRedisValues w2 userId limit currentCount ttl of
                  (Panic, w3) \<Rightarrow> (Panic, w3)
                | (Return u, w3) \<Rightarrow> (Return (currentCount \<le>s limit), w3))))"

definition Hybrid_RateLimitWithDetail ::
  "world \<Rightarrow> string \<Rightarrow> go_int \<Rightarrow> (error + go_int \<times> duration) outcome \<times> world" where
  "Hybrid_RateLimitWithDetail w userId limit =
     (case checkLocalCache w userId limit of
        (Panic, w1) \<Rightarrow> (Panic, w1)
      | (Return False, w1) \<Rightarrow>
          (case map_of (localCache w1) userId of
             None \<Rightarrow> (Return (Inr (0, 0)), w1)
           | Some OtherValue \<Rightarrow> (Panic, w1)
           | Some (CacheEntryPtr None) \<Rightarrow> (Panic, w1)
           | Some (CacheEntryPtr (Some entry)) \<Rightarrow>
               (let (now, w2) = time_Now w1
                in if now <s ResetTime entry
                   then (Return (Inr (0, ResetTime entry - now)), w2)
                   else (Return (Inr (0, 0)), w2)))
      | (Return True, w1) \<Rightarrow>
          (case Redis_RateLimitWithDetail w1 userId limit of
             (Inl err, w2) \<Rightarrow> (Return (Inl err), w2)
           | (Inr (remaining, ttl), w2) \<Rightarrow>
               (case incrementLocalCache w2 userId limit of
                  (Panic, w3) \<Rightarrow> (Panic, w3)
                | (Return u, w3) \<Rightarrow> (Return (Inr (remaining, ttl)), w3))))"

text \<open>\<^verbatim>\<open>CleanupExpiredEntries\<close>: \<^verbatim>\<open>Range\<close> visits the entries present and the callback
  deletes the expired ones.\<close>

fun sweepRange ::
  "int64 \<Rightarrow> (string \<times> iface) list \<Rightarrow> (string \<times> iface) list
     \<Rightarrow> unit outcome \<times> (string \<times> iface) list" where
  "sweepRange now [] cache = (Return (), cache)"
| "sweepRange now ((userId, value) # rest) cache =
     (case value of
        OtherValue \<Rightarrow> (Panic, cache)
      | CacheEntryPtr None \<Rightarrow> (Panic, cache)
      | CacheEntryPtr (Some entry) \<Rightarrow>
          if ResetTime entry <s now then sweepRange now rest (AList.delete userId cache)
          else sweepRange now rest cache)"

definition CleanupExpiredEntries :: "world \<Rightarrow> unit outcome \<times> world" where
  "CleanupExpiredEntries w =
     (let (now, w1) = time_Now w;
          (r, cache') = sweepRange now (localCache w1) (localCache w1)
      in (r, w1\<lparr>localCache := cache'\<rparr>))"

section \<open>The command handlers\<close>

text \<open>
  \<^verbatim>\<open>CheckRateLimitWithDetailCommandHandler.Handle\<close> is the operation that returns a decision
  (\<^verbatim>\<open>Allowed\<close>, \<^verbatim>\<open>Remaining\<close>, \<^verbatim>\<open>ResetTime\<close>) and the one the HTTP handler calls;
  \<^verbatim>\<open>CheckRateLimitCommandHandler.Handle\<close> returns the Boolean only. A handler's error result
  is \<open>Inl\<close>; a panic below it unwinds through it.
\<close>

text \<open>\<^verbatim>\<open>ports.RateLimitRepository\<close> has two implementations.\<close>

datatype repository = RedisRepo | HybridRepo

fun repository_RateLimit ::
  "repository \<Rightarrow> world \<Rightarrow> string \<Rightarrow> go_int \<Rightarrow> bool outcome \<times> world" where
  "repository_RateLimit RedisRepo w userId limit =
     (case Redis_RateLimit w userId limit of (b, w1) \<Rightarrow> (Return b, w1))"
| "repository_RateLimit HybridRepo w userId limit = Hybrid_RateLimit w userId limit"

fun repository_RateLimitWithDetail ::
  "repository \<Rightarrow> world \<Rightarrow> string \<Rightarrow> go_int
     \<Rightarrow> (error + go_int \<times> duration) outcome \<times> world" where
  "repository_RateLimitWithDetail RedisRepo w userId limit =
     (case Redis_RateLimitWithDetail w userId limit of (r, w1) \<Rightarrow> (Return r, w1))"
| "repository_RateLimitWithDetail HybridRepo w userId limit =
     Hybrid_RateLimitWithDetail w userId limit"

text \<open>\<^verbatim>\<open>CheckRateLimitCommand\<close> and \<^verbatim>\<open>CheckRateLimitWithDetailCommand\<close> have the same two
  fields.\<close>

record Command =
  UserID :: string
  cmd_Limit :: go_int

record CheckRateLimitWithDetailResponse =
  Remaining :: go_int
  resp_ResetTime :: duration
  Allowed :: bool

definition CheckRateLimit_Handle ::
  "repository \<Rightarrow> world \<Rightarrow> Command \<Rightarrow> (error + bool) outcome \<times> world" where
  "CheckRateLimit_Handle repo w cmd =
     (if UserID cmd = [] then (Return (Inl EmptyUserID), w)
      else if cmd_Limit cmd \<le>s 0 then (Return (Inl NonPositiveLimit), w)
      else case repository_RateLimit repo w (UserID cmd) (cmd_Limit cmd) of
             (Panic, w1) \<Rightarrow> (Panic, w1)
           | (Return allowed, w1) \<Rightarrow> (Return (Inr allowed), w1))"

definition CheckRateLimitWithDetail_Handle ::
  "repository \<Rightarrow> world \<Rightarrow> Command
     \<Rightarrow> (error + CheckRateLimitWithDetailResponse) outcome \<times> world" where
  "CheckRateLimitWithDetail_Handle repo w cmd =
     (if UserID cmd = [] then (Return (Inl EmptyUserID), w)
      else if cmd_Limit cmd \<le>s 0 then (Return (Inl NonPositiveLimit), w)
      else case repository_RateLimitWithDetail repo w (UserID cmd) (cmd_Limit cmd) of
             (Panic, w1) \<Rightarrow> (Panic, w1)
           | (Return (Inl err), w1) \<Rightarrow> (Return (Inl (CheckFailed err)), w1)
           | (Return (Inr (remaining, resetTime)), w1) \<Rightarrow>
               (Return (Inr \<lparr>Remaining = remaining, resp_ResetTime = resetTime,
                              Allowed = 0 <s remaining\<rparr>), w1))"

text \<open>The two validation errors of the handlers, as opposed to a Store failure.\<close>

fun is_ValidationError :: "error \<Rightarrow> bool" where
  "is_ValidationError EmptyUserID = True"
| "is_ValidationError NonPositiveLimit = True"
| "is_ValidationError PipelineError = False"
| "is_ValidationError (CheckFailed e) = False"

section \<open>Well-typed tables\<close>

text \<open>A table value on which the readers' \<^verbatim>\<open>value.(*CacheEntry)\<close> and the following field
  access succeed: a non-nil \<^verbatim>\<open>*CacheEntry\<close>.\<close>

fun well_typed :: "iface \<Rightarrow> bool" where
  "well_typed (CacheEntryPtr (Some e)) = True"
| "well_typed (CacheEntryPtr None) = False"
| "well_typed OtherValue = False"

definition cache_ok :: "(string \<times> iface) list \<Rightarrow> bool" where
  "cache_ok cache = list_all (\<lambda>(k, v). well_typed v) cache"

section \<open>Example states\<close>

text \<open>
  Concrete states on which the theorems below are instantiated. Times are in nanoseconds.
  \<open>world_fresh\<close> is a newly constructed repository whose clock reads 100, 101, 102, 103, ...
\<close>

definition world_fresh :: "exec_result stream \<Rightarrow> world" where
  "world_fresh be = NewHybridRateLimitRepository (100 ## 101 ## 102 ## sconst 103) be"

text \<open>A state with one entry for the subject \<open>u\<close>.\<close>

definition world_with :: "CacheEntry \<Rightarrow> int64 stream \<Rightarrow> exec_result stream \<Rightarrow> world" where
  "world_with e clk be =
     \<lparr>localCache = [(''u'', CacheEntryPtr (Some e))], clock = clk, backend = be, issued = []\<rparr>"

text \<open>The subject has used 5 of 5 in a window that ends at 1000; the backend is reachable.\<close>

definition world_exhausted :: world where
  "world_exhausted =
     world_with \<lparr>Count = 5, Limit = 5, ResetTime = 1000\<rparr>
       (100 ## 101 ## 102 ## sconst 103) (ExecOk 6 30000000000 ## sconst ExecErr)"

text \<open>The same entry, read at the very instant its window ends.\<close>

definition world_boundary :: world where
  "world_boundary =
     world_with \<lparr>Count = 5, Limit = 5, ResetTime = 1000\<rparr>
       (1000 ## 1000 ## sconst 1000) (ExecOk 1 60000000000 ## sconst ExecErr)"

text \<open>An entry whose window ended at 50, and an entry with 2 of 5 used in a running window;
  the backend is down.\<close>

definition world_expired :: world where
  "world_expired =
     world_with \<lparr>Count = 5, Limit = 5, ResetTime = 50\<rparr>
       (100 ## 101 ## 102 ## sconst 103) (ExecErr ## sconst ExecErr)"

definition world_live :: world where
  "world_live =
     world_with \<lparr>Count = 2, Limit = 5, ResetTime = 1000\<rparr>
       (100 ## 101 ## 102 ## sconst 103) (ExecErr ## sconst ExecErr)"


section \<open>The backend's commands\<close>

text \<open>
  The three commands that the repository queues, as the Redis server executes them on its
  key space at the server's instant \<open>now\<close> (in nanoseconds, as the durations are). A key
  holds a value and possibly an expiry instant, and a key whose expiry instant has been
  reached is gone. \<^verbatim>\<open>SET key v NX\<close> with a ttl writes only when the key is absent;
  \<^verbatim>\<open>INCR\<close> adds one to the value of a key and keeps its expiry, and creates an absent key
  with value 1 and no expiry; \<^verbatim>\<open>TTL\<close> changes nothing and answers -2 for an absent key,
  -1 for a key without an expiry and the time left otherwise.

  \<^verbatim>\<open>r.redisClient.Pipeline()\<close> is the client's plain pipeline, not \<^verbatim>\<open>TxPipeline()\<close>: the
  queued commands travel in one round trip but are not wrapped in \<^verbatim>\<open>MULTI\<close>/\<^verbatim>\<open>EXEC\<close>, so
  the server executes them one by one, each at its own instant, and commands of other
  clients may run in between. \<open>redis_run\<close> executes a schedule of commands, each with the
  instant at which the server reaches it.
\<close>

type_synonym keyspace = "string \<Rightarrow> (int64 \<times> int64 option) option"

definition redis_get :: "keyspace \<Rightarrow> int64 \<Rightarrow> string \<Rightarrow> (int64 \<times> int64 option) option" where
  "redis_get db now key =
     (case db key of
        None \<Rightarrow> None
      | Some (v, None) \<Rightarrow> Some (v, None)
      | Some (v, Some expiry) \<Rightarrow> if now <s expiry then Some (v, Some expiry) else None)"

fun redis_execute :: "keyspace \<Rightarrow> int64 \<Rightarrow> redis_cmd \<Rightarrow> keyspace" where
  "redis_execute db now (SetNX key v ttl) =
     (case redis_get db now key of
        None \<Rightarrow> db(key \<mapsto> (v, Some (now + ttl)))
      | Some held \<Rightarrow> db)"
| "redis_execute db now (Incr key) =
     (case redis_get db now key of
        None \<Rightarrow> db(key \<mapsto> (1, None))
      | Some (v, expiry) \<Rightarrow> db(key \<mapsto> (v + 1, expiry)))"
| "redis_execute db now (TTL key) = db"

definition redis_ttl :: "keyspace \<Rightarrow> int64 \<Rightarrow> string \<Rightarrow> duration" where
  "redis_ttl db now key =
     (case redis_get db now key of
        None \<Rightarrow> - 2
      | Some (v, None) \<Rightarrow> - 1
      | Some (v, Some expiry) \<Rightarrow> expiry - now)"

fun redis_run :: "keyspace \<Rightarrow> (int64 \<times> redis_cmd) list \<Rightarrow> keyspace" where
  "redis_run db [] = db"
| "redis_run db ((now, cmd) # rest) = redis_run (redis_execute db now cmd) rest"

text \<open>A key space in which the counter of the subject \<open>u\<close> stands at 5 and expires at 1000.\<close>

definition keyspace_expiring :: keyspace where
  "keyspace_expiring = Map.empty(''rate_limit:u'' \<mapsto> (5, Some 1000))"

section \<open>The primitives, case by case\<close>

lemma checkLocalCache_absent:
  "map_of (localCache w) userId = None \<Longrightarrow> checkLocalCache w userId limit = (Return True, w)"
  by (simp add: checkLocalCache_def)

lemma checkLocalCache_entry:
  "map_of (localCache w) userId = Some (CacheEntryPtr (Some e)) \<Longrightarrow>
   checkLocalCache w userId limit =
     (Return (ResetTime e <s shd (clock w) \<or> Count e <s limit), w\<lparr>clock := stl (clock w)\<rparr>)"
  by (simp add: checkLocalCache_def time_Now_def)

lemma incrementLocalCache_absent:
  "map_of (localCache w) userId = None \<Longrightarrow>
   incrementLocalCache w userId limit =
     (Return (),
      w\<lparr>clock := stl (clock w),
        localCache := AList.update userId
          (CacheEntryPtr (Some \<lparr>Count = 1, Limit = limit, ResetTime = shd (clock w) + windowSize\<rparr>))
          (localCache w)\<rparr>)"
  by (simp add: incrementLocalCache_def time_Now_def)

lemma incrementLocalCache_expired:
  "map_of (localCache w) userId = Some (CacheEntryPtr (Some e)) \<Longrightarrow>
   ResetTime e <s shd (clock w) \<Longrightarrow>
   incrementLocalCache w userId limit =
     (Return (),
      w\<lparr>clock := stl (stl (clock w)),
        localCache := AList.update userId
          (CacheEntryPtr (Some (e\<lparr>Count := 1, Limit := limit,
                                   ResetTime := shd (stl (clock w)) + windowSize\<rparr>)))
          (localCache w)\<rparr>)"
  by (simp add: incrementLocalCache_def time_Now_def)

lemma incrementLocalCache_live:
  "map_of (localCache w) userId = Some (CacheEntryPtr (Some e)) \<Longrightarrow>
   \<not> ResetTime e <s shd (clock w) \<Longrightarrow>
   incrementLocalCache w userId limit =
     (Return (),
      w\<lparr>clock := stl (clock w),
        localCache := AList.update userId
          (CacheEntryPtr (Some (e\<lparr>Count := Count e + 1\<rparr>))) (localCache w)\<rparr>)"
  by (simp add: incrementLocalCache_def time_Now_def)

lemma Redis_RateLimitWithDetail_err:
  "shd (backend w) = ExecErr \<Longrightarrow>
   Redis_RateLimitWithDetail w userId limit =
     (Inl (CheckFailed PipelineError),
      w\<lparr>backend := stl (backend w),
        issued := [SetNX (rateLimitKey userId) 0 windowSize, Incr (rateLimitKey userId),
                   TTL (rateLimitKey userId)] # issued w\<rparr>)"
  by (simp add: Redis_RateLimitWithDetail_def Exec_def Let_def)

lemma Redis_RateLimitWithDetail_ok:
  "shd (backend w) = ExecOk c ttl \<Longrightarrow>
   Redis_RateLimitWithDetail w userId limit =
     (Inr (if limit - c <s 0 then 0 else limit - c, ttl),
      w\<lparr>backend := stl (backend w),
        issued := [SetNX (rateLimitKey userId) 0 windowSize, Incr (rateLimitKey userId),
                   TTL (rateLimitKey userId)] # issued w\<rparr>)"
  by (simp add: Redis_RateLimitWithDetail_def Exec_def Let_def)

lemma positive_limit_passes: "0 <s (limit::go_int) \<Longrightarrow> \<not> limit \<le>s 0"
  by (simp add: word_sle_eq word_sless_alt)

lemma updateLocalCacheWithRedisValues_absent:
  "map_of (localCache w) userId = None \<Longrightarrow>
   updateLocalCacheWithRedisValues w userId limit v ttl =
     (Return (),
      w\<lparr>clock := stl (clock w),
        localCache := AList.update userId
          (CacheEntryPtr (Some \<lparr>Count = v, Limit = limit, ResetTime = shd (clock w) + ttl\<rparr>))
          (localCache w)\<rparr>)"
  by (simp add: updateLocalCacheWithRedisValues_def time_Now_def)

lemma updateLocalCacheWithRedisValues_entry:
  "map_of (localCache w) userId = Some (CacheEntryPtr (Some e)) \<Longrightarrow>
   updateLocalCacheWithRedisValues w userId limit v ttl =
     (Return (),
      w\<lparr>clock := stl (clock w),
        localCache := AList.update userId
          (CacheEntryPtr (Some (e\<lparr>Count := v, Limit := limit, ResetTime := shd (clock w) + ttl\<rparr>)))
          (localCache w)\<rparr>)"
  by (simp add: updateLocalCacheWithRedisValues_def time_Now_def)

lemma Load_after_Store: "map_of (AList.update k v al) k = Some v"
  by (simp add: update_conv')

lemma CacheEntry_all_fields:
  "(e::CacheEntry)\<lparr>Count := c, Limit := l, ResetTime := r\<rparr> = \<lparr>Count = c, Limit = l, ResetTime = r\<rparr>"
  by (cases e) simp


section \<open>Well-typed tables are preserved\<close>

lemma cache_ok_Load:
  "cache_ok cache \<Longrightarrow> map_of cache k = Some v \<Longrightarrow> \<exists>e. v = CacheEntryPtr (Some e)"
proof -
  assume ok: "cache_ok cache" and l: "map_of cache k = Some v"
  from l have "(k, v) \<in> set cache" by (rule map_of_SomeD)
  with ok have "well_typed v" by (auto simp: cache_ok_def list_all_iff)
  then show ?thesis by (cases v rule: well_typed.cases) simp_all
qed

lemma cache_ok_Store:
  "cache_ok cache \<Longrightarrow> cache_ok (AList.update k (CacheEntryPtr (Some e)) cache)"
  by (induction cache) (auto simp: cache_ok_def)

lemma cache_ok_Delete: "cache_ok cache \<Longrightarrow> cache_ok (AList.delete k cache)"
  by (simp add: cache_ok_def AList.delete_eq list_all_iff)

lemma checkLocalCache_ok:
  assumes "cache_ok (localCache w)" and "checkLocalCache w userId limit = (r, w')"
  shows "r \<noteq> Panic \<and> cache_ok (localCache w')"
proof (cases "map_of (localCache w) userId")
  case None
  with assms show ?thesis by (auto simp: checkLocalCache_absent)
next
  case (Some v)
  with assms(1) obtain e where "v = CacheEntryPtr (Some e)" by (blast dest: cache_ok_Load)
  with Some assms show ?thesis by (auto simp: checkLocalCache_entry)
qed

lemma updateLocalCacheWithRedisValues_ok:
  assumes "cache_ok (localCache w)"
      and "updateLocalCacheWithRedisValues w userId limit v ttl = (r, w')"
  shows "r \<noteq> Panic \<and> cache_ok (localCache w')"
proof (cases "map_of (localCache w) userId")
  case None
  with assms show ?thesis
    by (auto simp: updateLocalCacheWithRedisValues_absent cache_ok_Store)
next
  case (Some x)
  with assms(1) obtain e where "x = CacheEntryPtr (Some e)" by (blast dest: cache_ok_Load)
  with Some assms show ?thesis
    by (auto simp: updateLocalCacheWithRedisValues_entry cache_ok_Store)
qed

lemma incrementLocalCache_ok:
  assumes "cache_ok (localCache w)" and "incrementLocalCache w userId limit = (r, w')"
  shows "r \<noteq> Panic \<and> cache_ok (localCache w')"
proof (cases "map_of (localCache w) userId")
  case None
  with assms show ?thesis
    by (auto simp: incrementLocalCache_absent cache_ok_Store)
next
  case (Some x)
  with assms(1) obtain e where e: "x = CacheEntryPtr (Some e)" by (blast dest: cache_ok_Load)
  show ?thesis
  proof (cases "ResetTime e <s shd (clock w)")
    case True
    with Some e assms show ?thesis
      by (auto simp: incrementLocalCache_expired cache_ok_Store)
  next
    case False
    with Some e assms show ?thesis
      by (auto simp: incrementLocalCache_live cache_ok_Store)
  qed
qed

lemma Redis_RateLimitWithDetail_localCache:
  "Redis_RateLimitWithDetail w userId limit = (r, w') \<Longrightarrow> localCache w' = localCache w"
  by (auto simp: Redis_RateLimitWithDetail_def Exec_def Let_def split: exec_result.splits)

lemma sweepRange_ok:
  "list_all (\<lambda>(k, v). well_typed v) entries \<Longrightarrow> cache_ok cache \<Longrightarrow>
   sweepRange now entries cache = (r, cache') \<Longrightarrow> r \<noteq> Panic \<and> cache_ok cache'"
proof (induction entries arbitrary: cache)
  case Nil
  then show ?case by auto
next
  case (Cons kv entries)
  obtain k v where kv: "kv = (k, v)" by (cases kv)
  with Cons.prems(1) obtain e where v: "v = CacheEntryPtr (Some e)"
    by (cases v rule: well_typed.cases) simp_all
  from Cons.prems(1) have rest: "list_all (\<lambda>(k, v). well_typed v) entries" by simp
  show ?case
  proof (cases "ResetTime e <s now")
    case True
    with kv v Cons.prems(3) have "sweepRange now entries (AList.delete k cache) = (r, cache')"
      by simp
    from Cons.IH [OF rest cache_ok_Delete [OF Cons.prems(2)] this] show ?thesis .
  next
    case False
    with kv v Cons.prems(3) have "sweepRange now entries cache = (r, cache')" by simp
    from Cons.IH [OF rest Cons.prems(2) this] show ?thesis .
  qed
qed

lemma CleanupExpiredEntries_ok:
  assumes "cache_ok (localCache w)" and "CleanupExpiredEntries w = (r, w')"
  shows "r \<noteq> Panic \<and> cache_ok (localCache w')"
proof -
  have typed: "list_all (\<lambda>(k, v). well_typed v) (localCache w)"
    using assms(1) by (simp add: cache_ok_def)
  obtain r0 c0 where s: "sweepRange (shd (clock w)) (localCache w) (localCache w) = (r0, c0)"
    by fastforce
  from sweepRange_ok [OF typed assms(1) s] assms(2) s show ?thesis
    by (auto simp: CleanupExpiredEntries_def time_Now_def)
qed

lemma Hybrid_RateLimit_ok:
  assumes ok: "cache_ok (localCache w)" and run: "Hybrid_RateLimit w userId limit = (r, w')"
  shows "r \<noteq> Panic \<and> cache_ok (localCache w')"
proof -
  obtain r1 w1 where c: "checkLocalCache w userId limit = (r1, w1)" by fastforce
  from checkLocalCache_ok [OF ok c]
  have r1: "r1 \<noteq> Panic" and ok1: "cache_ok (localCache w1)" by simp_all
  from r1 obtain b where b: "r1 = Return b" by (cases r1) simp_all
  show ?thesis
  proof (cases b)
    case False
    with c b run ok1 show ?thesis by (auto simp: Hybrid_RateLimit_def)
  next
    case True
    obtain r2 w2 where s: "Redis_RateLimitWithDetail w1 userId limit = (r2, w2)" by fastforce
    from Redis_RateLimitWithDetail_localCache [OF s] ok1
    have ok2: "cache_ok (localCache w2)" by simp
    show ?thesis
    proof (cases r2)
      case (Inl err)
      obtain r3 w3 where i: "incrementLocalCache w2 userId limit = (r3, w3)" by fastforce
      from incrementLocalCache_ok [OF ok2 i]
      have r3: "r3 \<noteq> Panic" and ok3: "cache_ok (localCache w3)" by simp_all
      from r3 have r3': "r3 = Return ()" by (cases r3) simp_all
      show ?thesis
      proof (cases "map_of (localCache w3) userId")
        case None
        with c b True s Inl i r3' run ok3 show ?thesis by (auto simp: Hybrid_RateLimit_def)
      next
        case (Some x)
        with ok3 obtain e where "x = CacheEntryPtr (Some e)" by (blast dest: cache_ok_Load)
        with Some c b True s Inl i r3' run ok3 show ?thesis
          by (auto simp: Hybrid_RateLimit_def)
      qed
    next
      case (Inr p)
      obtain v ttl where p: "p = (v, ttl)" by (cases p)
      obtain r3 w3 where u: "updateLocalCacheWithRedisValues w2 userId limit v ttl = (r3, w3)"
        by fastforce
      from updateLocalCacheWithRedisValues_ok [OF ok2 u]
      have r3: "r3 \<noteq> Panic" and ok3: "cache_ok (localCache w3)" by simp_all
      from r3 have "r3 = Return ()" by (cases r3) simp_all
      with c b True s Inr p u run ok3 show ?thesis by (auto simp: Hybrid_RateLimit_def)
    qed
  qed
qed

lemma Hybrid_RateLimitWithDetail_ok:
  assumes ok: "cache_ok (localCache w)"
      and run: "Hybrid_RateLimitWithDetail w userId limit = (r, w')"
  shows "r \<noteq> Panic \<and> cache_ok (localCache w')"
proof -
  obtain r1 w1 where c: "checkLocalCache w userId limit = (r1, w1)" by fastforce
  from checkLocalCache_ok [OF ok c]
  have r1: "r1 \<noteq> Panic" and ok1: "cache_ok (localCache w1)" by simp_all
  from r1 obtain b where b: "r1 = Return b" by (cases r1) simp_all
  show ?thesis
  proof (cases b)
    case False
    show ?thesis
    proof (cases "map_of (localCache w1) userId")
      case None
      with c b False run ok1 show ?thesis by (auto simp: Hybrid_RateLimitWithDetail_def)
    next
      case (Some x)
      with ok1 obtain e where "x = CacheEntryPtr (Some e)" by (blast dest: cache_ok_Load)
      with Some c b False run ok1 show ?thesis
        by (auto simp: Hybrid_RateLimitWithDetail_def time_Now_def split: if_splits)
    qed
  next
    case True
    obtain r2 w2 where s: "Redis_RateLimitWithDetail w1 userId limit = (r2, w2)" by fastforce
    from Redis_RateLimitWithDetail_localCache [OF s] ok1
    have ok2: "cache_ok (localCache w2)" by simp
    show ?thesis
    proof (cases r2)
      case (Inl err)
      with c b True s run ok2 show ?thesis by (auto simp: Hybrid_RateLimitWithDetail_def)
    next
      case (Inr p)
      obtain v ttl where p: "p = (v, ttl)" by (cases p)
      obtain r3 w3 where i: "incrementLocalCache w2 userId limit = (r3, w3)" by fastforce
      from incrementLocalCache_ok [OF ok2 i]
      have r3: "r3 \<noteq> Panic" and ok3: "cache_ok (localCache w3)" by simp_all
      from r3 have "r3 = Return ()" by (cases r3) simp_all
      with c b True s Inr p i run ok3 show ?thesis by (auto simp: Hybrid_RateLimitWithDetail_def)
    qed
  qed
qed

section \<open>Evaluation on concrete states\<close>

lemmas eval_defs =
  world_fresh_def world_with_def NewHybridRateLimitRepository_def rateLimitKey_def
  CheckRateLimitWithDetail_Handle_def CheckRateLimit_Handle_def
  Hybrid_RateLimitWithDetail_def Hybrid_RateLimit_def checkLocalCache_def
  Redis_RateLimitWithDetail_def Redis_RateLimit_def Exec_def incrementLocalCache_def
  updateLocalCacheWithRedisValues_def time_Now_def Let_def word_sle_eq word_sless_alt

section \<open>Admission up to the limit\<close>

text \<open>
  Claim C1. From an empty state and with the Store reachable, the first \<open>L\<close> calls within
  one window are each allowed (a call whose Store count is \<open>c\<close> is allowed iff \<open>c \<le> L\<close>)
  and call \<open>L + 1\<close> is denied with nothing remaining.

  The detail handler does not do this: it sets \<^verbatim>\<open>allowed := remaining > 0\<close> from
  \<^verbatim>\<open>remaining = max(0, limit - count)\<close>, so the call whose Store count equals the limit is
  already denied. With limit 1 the very first call is denied, on both repositories, while
  the Boolean handler (\<^verbatim>\<open>currentCount <= limit\<close>) allows it on the same input. With limit 3
  and Store counts 1, 2, 3 the third call through the hybrid repository is denied.
\<close>

theorem C1_call_at_the_limit_is_denied:
  "fst (CheckRateLimitWithDetail_Handle RedisRepo
          (world_fresh (ExecOk 1 60000000000 ## sconst ExecErr))
          \<lparr>UserID = ''u'', cmd_Limit = 1\<rparr>) =
     Return (Inr \<lparr>Remaining = 0, resp_ResetTime = 60000000000, Allowed = False\<rparr>) \<and>
   fst (CheckRateLimitWithDetail_Handle HybridRepo
          (world_fresh (ExecOk 1 60000000000 ## sconst ExecErr))
          \<lparr>UserID = ''u'', cmd_Limit = 1\<rparr>) =
     Return (Inr \<lparr>Remaining = 0, resp_ResetTime = 60000000000, Allowed = False\<rparr>) \<and>
   fst (CheckRateLimit_Handle RedisRepo
          (world_fresh (ExecOk 1 60000000000 ## sconst ExecErr))
          \<lparr>UserID = ''u'', cmd_Limit = 1\<rparr>) = Return (Inr True) \<and>
   fst (CheckRateLimitWithDetail_Handle HybridRepo
          (snd (CheckRateLimitWithDetail_Handle HybridRepo
             (snd (CheckRateLimitWithDetail_Handle HybridRepo
                (world_fresh (ExecOk 1 60000000000 ## ExecOk 2 59000000000
                                ## ExecOk 3 58000000000 ## sconst ExecErr))
                \<lparr>UserID = ''u'', cmd_Limit = 3\<rparr>))
             \<lparr>UserID = ''u'', cmd_Limit = 3\<rparr>))
          \<lparr>UserID = ''u'', cmd_Limit = 3\<rparr>) =
     Return (Inr \<lparr>Remaining = 0, resp_ResetTime = 58000000000, Allowed = False\<rparr>)"
  by (simp add: eval_defs windowSize_def)

text \<open>The same for every positive limit, on the Redis repository: the call whose Store
  count equals the limit is denied by the detail handler and allowed by the Boolean one.\<close>

lemma detail_handler_denies_at_the_limit:
  assumes "userId \<noteq> []" and "0 <s limit" and "shd (backend w) = ExecOk limit ttl"
  shows "fst (CheckRateLimitWithDetail_Handle RedisRepo w \<lparr>UserID = userId, cmd_Limit = limit\<rparr>) =
           Return (Inr \<lparr>Remaining = 0, resp_ResetTime = ttl, Allowed = False\<rparr>) \<and>
         fst (CheckRateLimit_Handle RedisRepo w \<lparr>UserID = userId, cmd_Limit = limit\<rparr>) =
           Return (Inr True)"
  using assms
  by (simp add: CheckRateLimitWithDetail_Handle_def CheckRateLimit_Handle_def
      Redis_RateLimitWithDetail_ok Redis_RateLimit_def Exec_def Let_def positive_limit_passes)

section \<open>Store failure\<close>

text \<open>
  Claim C2. When the Store call fails, the call does not return that error: it still
  produces a decision from the local tier, and only validation and internal-invariant
  errors escape.

  \<^verbatim>\<open>HybridRateLimitRepository.RateLimitWithDetail\<close> returns the pipeline error
  (\<^verbatim>\<open>return 0, 0, err\<close>) and the handler wraps and returns it; the local table is not even
  updated. The Boolean \<^verbatim>\<open>RateLimit\<close> of the same repository falls back to the local
  counter on the same input.
\<close>

theorem C2_store_error_reaches_the_caller:
  "CheckRateLimitWithDetail_Handle HybridRepo (world_fresh (ExecErr ## sconst ExecErr))
      \<lparr>UserID = ''u'', cmd_Limit = 5\<rparr> =
     (Return (Inl (CheckFailed (CheckFailed PipelineError))),
      (world_fresh (sconst ExecErr))
        \<lparr>issued := [[SetNX ''rate_limit:u'' 0 windowSize, Incr ''rate_limit:u'',
                      TTL ''rate_limit:u'']]\<rparr>) \<and>
   \<not> is_ValidationError (CheckFailed (CheckFailed PipelineError)) \<and>
   fst (CheckRateLimit_Handle HybridRepo (world_fresh (ExecErr ## sconst ExecErr))
      \<lparr>UserID = ''u'', cmd_Limit = 5\<rparr>) = Return (Inr True)"
  by (simp add: eval_defs)

text \<open>The same for every state in which the local check passes: the pipeline error is
  returned and the local table is left as it was.\<close>

lemma hybrid_detail_returns_the_store_error:
  assumes "map_of (localCache w) userId = None \<or>
           (\<exists>e. map_of (localCache w) userId = Some (CacheEntryPtr (Some e)) \<and>
                (ResetTime e <s shd (clock w) \<or> Count e <s limit))"
      and "shd (backend w) = ExecErr"
  shows "fst (Hybrid_RateLimitWithDetail w userId limit) = Return (Inl (CheckFailed PipelineError)) \<and>
         localCache (snd (Hybrid_RateLimitWithDetail w userId limit)) = localCache w"
  using assms
  by (auto simp: Hybrid_RateLimitWithDetail_def checkLocalCache_absent checkLocalCache_entry
      Redis_RateLimitWithDetail_err)

section \<open>The local entry after a successful Store call\<close>




section \<open>Validation in the handlers\<close>

text \<open>
  Claim C4. For every limit and every subject, a command with the empty subject and a
  command with a limit \<open>\<le> 0\<close> are rejected with a validation error by both handlers,
  whichever repository is wired. The error is determined by the command alone, so nothing
  was read from the local table or the Store, and the state after the call is the state
  before it: the local table, the clock, the backend and the list of pipelines sent are
  untouched.
\<close>

theorem C4_validation_error_leaves_state:
  assumes "UserID cmd = [] \<or> cmd_Limit cmd \<le>s 0"
  shows
   "CheckRateLimit_Handle repo w cmd =
      (Return (Inl (if UserID cmd = [] then EmptyUserID else NonPositiveLimit)), w) \<and>
    CheckRateLimitWithDetail_Handle repo w cmd =
      (Return (Inl (if UserID cmd = [] then EmptyUserID else NonPositiveLimit)), w) \<and>
    is_ValidationError (if UserID cmd = [] then EmptyUserID else NonPositiveLimit)"
  using assms
  by (auto simp: CheckRateLimit_Handle_def CheckRateLimitWithDetail_Handle_def)

text \<open>The theorem for the empty subject with limit 5, and for the subject \<open>u\<close> with the
  limits 0 and -3, on the state \<open>world_live\<close>.\<close>

theorem C4_validation_error_leaves_state_witness:
  "CheckRateLimitWithDetail_Handle HybridRepo world_live \<lparr>UserID = [], cmd_Limit = 5\<rparr> =
     (Return (Inl EmptyUserID), world_live) \<and>
   CheckRateLimit_Handle HybridRepo world_live \<lparr>UserID = [], cmd_Limit = 5\<rparr> =
     (Return (Inl EmptyUserID), world_live) \<and>
   (0 :: go_int) \<le>s 0 \<and>
   CheckRateLimitWithDetail_Handle HybridRepo world_live \<lparr>UserID = ''u'', cmd_Limit = 0\<rparr> =
     (Return (Inl NonPositiveLimit), world_live) \<and>
   CheckRateLimit_Handle HybridRepo world_live \<lparr>UserID = ''u'', cmd_Limit = 0\<rparr> =
     (Return (Inl NonPositiveLimit), world_live) \<and>
   (- 3 :: go_int) \<le>s 0 \<and>
   CheckRateLimitWithDetail_Handle RedisRepo world_live \<lparr>UserID = ''u'', cmd_Limit = - 3\<rparr> =
     (Return (Inl NonPositiveLimit), world_live) \<and>
   is_ValidationError EmptyUserID \<and> is_ValidationError NonPositiveLimit"
proof -
  have e: "UserID \<lparr>UserID = [], cmd_Limit = 5\<rparr> = []
           \<or> cmd_Limit \<lparr>UserID = [], cmd_Limit = 5\<rparr> \<le>s 0"
    by simp
  have z: "UserID \<lparr>UserID = ''u'', cmd_Limit = 0\<rparr> = []
           \<or> cmd_Limit \<lparr>UserID = ''u'', cmd_Limit = 0\<rparr> \<le>s 0"
    by simp
  have n: "UserID \<lparr>UserID = ''u'', cmd_Limit = - 3\<rparr> = []
           \<or> cmd_Limit \<lparr>UserID = ''u'', cmd_Limit = - 3\<rparr> \<le>s 0"
    by (simp add: word_sle_eq)
  show ?thesis
    using
      C4_validation_error_leaves_state [OF e, where repo = HybridRepo and w = world_live]
      C4_validation_error_leaves_state [OF z, where repo = HybridRepo and w = world_live]
      C4_validation_error_leaves_state [OF n, where repo = RedisRepo and w = world_live]
    by (simp add: word_sle_eq)
qed

section \<open>The fast-path denial\<close>

text \<open>
  Claim C5, as amended. For a subject with a local entry whose reset time has not passed
  (\<open>now \<le> ResetTime\<close> when the check reads the clock) and whose count is at least the
  limit, the call returns \<open>allowed = false\<close>, \<open>remaining = 0\<close> and
  \<open>resetIn = ResetTime - now'\<close>, where \<open>now'\<close> is the clock reading taken for it
  (\<open>resetIn = 0\<close> when \<open>now'\<close> is not before \<open>ResetTime\<close>), and no pipeline is sent to the
  Store: of the state only the clock has advanced. An entry with \<open>now > ResetTime\<close> passes
  the check as an absent one does.
\<close>

theorem C5_fast_path_denial:
  assumes "map_of (localCache w) userId = Some (CacheEntryPtr (Some e))"
      and "clock w = t1 ## t2 ## ts"
      and "userId \<noteq> []"
      and "0 <s limit"
  shows
   "(t1 \<le>s ResetTime e \<and> limit \<le>s Count e \<longrightarrow>
       CheckRateLimitWithDetail_Handle HybridRepo w \<lparr>UserID = userId, cmd_Limit = limit\<rparr> =
         (Return (Inr \<lparr>Remaining = 0,
                        resp_ResetTime = (if t2 <s ResetTime e then ResetTime e - t2 else 0),
                        Allowed = False\<rparr>),
          w\<lparr>clock := ts\<rparr>)) \<and>
    (ResetTime e <s t1 \<longrightarrow> fst (checkLocalCache w userId limit) = Return True)"
  using assms
  by (simp add: CheckRateLimitWithDetail_Handle_def Hybrid_RateLimitWithDetail_def
      checkLocalCache_entry time_Now_def positive_limit_passes signed.not_less [symmetric])

text \<open>The theorem at \<open>world_exhausted\<close> (5 of 5 used, the window ends at 1000, the clock reads
  100 and 101) and, for the expired case, at \<open>world_expired\<close> (the window ended at 50).\<close>

theorem C5_fast_path_denial_witness:
  "map_of (localCache world_exhausted) ''u'' =
     Some (CacheEntryPtr (Some \<lparr>Count = 5, Limit = 5, ResetTime = 1000\<rparr>)) \<and>
   clock world_exhausted = 100 ## 101 ## 102 ## sconst 103 \<and>
   ''u'' \<noteq> [] \<and> (0 :: go_int) <s 5 \<and> (100 :: int64) \<le>s 1000 \<and> (5 :: go_int) \<le>s 5 \<and>
   CheckRateLimitWithDetail_Handle HybridRepo world_exhausted \<lparr>UserID = ''u'', cmd_Limit = 5\<rparr> =
     (Return (Inr \<lparr>Remaining = 0, resp_ResetTime = 899, Allowed = False\<rparr>),
      world_exhausted\<lparr>clock := 102 ## sconst 103\<rparr>) \<and>
   map_of (localCache world_expired) ''u'' =
     Some (CacheEntryPtr (Some \<lparr>Count = 5, Limit = 5, ResetTime = 50\<rparr>)) \<and>
   clock world_expired = 100 ## 101 ## 102 ## sconst 103 \<and>
   (50 :: int64) <s 100 \<and>
   fst (checkLocalCache world_expired ''u'' 5) = Return True"
proof -
  have a1: "map_of (localCache world_exhausted) ''u'' =
     Some (CacheEntryPtr (Some \<lparr>Count = 5, Limit = 5, ResetTime = 1000\<rparr>))"
    by (simp add: world_exhausted_def world_with_def)
  have a2: "clock world_exhausted = 100 ## 101 ## 102 ## sconst 103"
    by (simp add: world_exhausted_def world_with_def)
  have b1: "map_of (localCache world_expired) ''u'' =
     Some (CacheEntryPtr (Some \<lparr>Count = 5, Limit = 5, ResetTime = 50\<rparr>))"
    by (simp add: world_expired_def world_with_def)
  have b2: "clock world_expired = 100 ## 101 ## 102 ## sconst 103"
    by (simp add: world_expired_def world_with_def)
  have u: "''u'' \<noteq> []" by simp
  have l: "(0 :: go_int) <s 5" by (simp add: word_sless_alt)
  show ?thesis
    using a1 a2 b1 b2 u l
      C5_fast_path_denial [OF a1 a2 u l] C5_fast_path_denial [OF b1 b2 u l]
    by simp
qed

text \<open>The claim as first stated treats an entry with \<open>now \<ge> ResetTime\<close> as absent. At
  \<open>world_boundary\<close> the clock reads exactly the entry's reset time, 1000: the entry still
  counts, the check denies, and the call is answered without the Store, whereas for an
  absent entry the check passes.\<close>

theorem C5_entry_at_its_reset_time_counterexample:
  "(1000 :: int64) \<le>s 1000 \<and>
   fst (checkLocalCache world_boundary ''u'' 5) = Return False \<and>
   fst (checkLocalCache (world_boundary\<lparr>localCache := []\<rparr>) ''u'' 5) = Return True \<and>
   CheckRateLimitWithDetail_Handle HybridRepo world_boundary \<lparr>UserID = ''u'', cmd_Limit = 5\<rparr> =
     (Return (Inr \<lparr>Remaining = 0, resp_ResetTime = 0, Allowed = False\<rparr>),
      world_boundary\<lparr>clock := sconst 1000\<rparr>)"
  by (simp add: world_boundary_def eval_defs)

section \<open>Degraded mode\<close>

text \<open>
  Claim C6. When the Store call of \<^verbatim>\<open>RateLimit\<close> fails: with no local entry, a new entry
  is created with count 1 and a full window from the clock reading \<open>t1\<close>; with an entry
  that is expired when \<^verbatim>\<open>incrementLocalCache\<close> reads the clock (\<open>t2\<close>), the entry gets
  count 1 and a full window from the next reading \<open>t3\<close>; otherwise its count is
  incremented by exactly 1 (Go's wrapping \<open>+\<close>) and nothing else of it changes. The
  decision returned is \<open>count < limit\<close> for the resulting local count. An existing entry
  reaches the Store call when the local check at \<open>t1\<close> finds it expired or below the limit.
\<close>

theorem C6_degraded_mode_counts_locally:
  assumes "backend w = ExecErr ## bs"
      and "clock w = t1 ## t2 ## t3 ## ts"
  shows
   "(map_of (localCache w) userId = None \<longrightarrow>
       Hybrid_RateLimit w userId limit =
         (Return (1 <s limit),
          w\<lparr>localCache := AList.update userId
                (CacheEntryPtr (Some \<lparr>Count = 1, Limit = limit, ResetTime = t1 + windowSize\<rparr>))
                (localCache w),
            clock := t2 ## t3 ## ts, backend := bs,
            issued := [SetNX (rateLimitKey userId) 0 windowSize, Incr (rateLimitKey userId),
                       TTL (rateLimitKey userId)] # issued w\<rparr>)) \<and>
    (map_of (localCache w) userId = Some (CacheEntryPtr (Some e)) \<and>
     (ResetTime e <s t1 \<or> Count e <s limit) \<and> ResetTime e <s t2 \<longrightarrow>
       Hybrid_RateLimit w userId limit =
         (Return (1 <s limit),
          w\<lparr>localCache := AList.update userId
                (CacheEntryPtr (Some \<lparr>Count = 1, Limit = limit, ResetTime = t3 + windowSize\<rparr>))
                (localCache w),
            clock := ts, backend := bs,
            issued := [SetNX (rateLimitKey userId) 0 windowSize, Incr (rateLimitKey userId),
                       TTL (rateLimitKey userId)] # issued w\<rparr>)) \<and>
    (map_of (localCache w) userId = Some (CacheEntryPtr (Some e)) \<and>
     (ResetTime e <s t1 \<or> Count e <s limit) \<and> \<not> ResetTime e <s t2 \<longrightarrow>
       Hybrid_RateLimit w userId limit =
         (Return (Count e + 1 <s limit),
          w\<lparr>localCache := AList.update userId
                (CacheEntryPtr (Some (e\<lparr>Count := Count e + 1\<rparr>)))
                (localCache w),
            clock := t3 ## ts, backend := bs,
            issued := [SetNX (rateLimitKey userId) 0 windowSize, Incr (rateLimitKey userId),
                       TTL (rateLimitKey userId)] # issued w\<rparr>))"
proof (intro conjI impI)
  assume absent: "map_of (localCache w) userId = None"
  show "Hybrid_RateLimit w userId limit =
         (Return (1 <s limit),
          w\<lparr>localCache := AList.update userId
                (CacheEntryPtr (Some \<lparr>Count = 1, Limit = limit, ResetTime = t1 + windowSize\<rparr>))
                (localCache w),
            clock := t2 ## t3 ## ts, backend := bs,
            issued := [SetNX (rateLimitKey userId) 0 windowSize, Incr (rateLimitKey userId),
                       TTL (rateLimitKey userId)] # issued w\<rparr>)"
    using assms absent
    by (simp add: Hybrid_RateLimit_def checkLocalCache_absent Redis_RateLimitWithDetail_err
        incrementLocalCache_absent Load_after_Store)
next
  assume h: "map_of (localCache w) userId = Some (CacheEntryPtr (Some e)) \<and>
     (ResetTime e <s t1 \<or> Count e <s limit) \<and> ResetTime e <s t2"
  show "Hybrid_RateLimit w userId limit =
         (Return (1 <s limit),
          w\<lparr>localCache := AList.update userId
                (CacheEntryPtr (Some \<lparr>Count = 1, Limit = limit, ResetTime = t3 + windowSize\<rparr>))
                (localCache w),
            clock := ts, backend := bs,
            issued := [SetNX (rateLimitKey userId) 0 windowSize, Incr (rateLimitKey userId),
                       TTL (rateLimitKey userId)] # issued w\<rparr>)"
    using assms h
    by (simp add: Hybrid_RateLimit_def checkLocalCache_entry Redis_RateLimitWithDetail_err
        incrementLocalCache_expired Load_after_Store CacheEntry_all_fields)
next
  assume h: "map_of (localCache w) userId = Some (CacheEntryPtr (Some e)) \<and>
     (ResetTime e <s t1 \<or> Count e <s limit) \<and> \<not> ResetTime e <s t2"
  show "Hybrid_RateLimit w userId limit =
         (Return (Count e + 1 <s limit),
          w\<lparr>localCache := AList.update userId
                (CacheEntryPtr (Some (e\<lparr>Count := Count e + 1\<rparr>)))
                (localCache w),
            clock := t3 ## ts, backend := bs,
            issued := [SetNX (rateLimitKey userId) 0 windowSize, Incr (rateLimitKey userId),
                       TTL (rateLimitKey userId)] # issued w\<rparr>)"
    using assms h
    by (simp add: Hybrid_RateLimit_def checkLocalCache_entry Redis_RateLimitWithDetail_err
        incrementLocalCache_live Load_after_Store)
qed

text \<open>The theorem with the backend down: on a fresh repository (a new entry with count 1),
  at \<open>world_expired\<close> (the entry restarts at count 1) and at \<open>world_live\<close> (2 of 5 becomes
  3 of 5).\<close>

theorem C6_degraded_mode_counts_locally_witness:
  "backend (world_fresh (ExecErr ## sconst ExecErr)) = ExecErr ## sconst ExecErr \<and>
   clock (world_fresh (ExecErr ## sconst ExecErr)) = 100 ## 101 ## 102 ## sconst 103 \<and>
   map_of (localCache (world_fresh (ExecErr ## sconst ExecErr))) ''u'' = None \<and>
   fst (Hybrid_RateLimit (world_fresh (ExecErr ## sconst ExecErr)) ''u'' 5) = Return True \<and>
   localCache (snd (Hybrid_RateLimit (world_fresh (ExecErr ## sconst ExecErr)) ''u'' 5)) =
     [(''u'', CacheEntryPtr (Some \<lparr>Count = 1, Limit = 5, ResetTime = 100 + windowSize\<rparr>))] \<and>
   backend world_expired = ExecErr ## sconst ExecErr \<and>
   clock world_expired = 100 ## 101 ## 102 ## sconst 103 \<and>
   map_of (localCache world_expired) ''u'' =
     Some (CacheEntryPtr (Some \<lparr>Count = 5, Limit = 5, ResetTime = 50\<rparr>)) \<and>
   (50 :: int64) <s 100 \<and> (50 :: int64) <s 101 \<and>
   fst (Hybrid_RateLimit world_expired ''u'' 5) = Return True \<and>
   localCache (snd (Hybrid_RateLimit world_expired ''u'' 5)) =
     [(''u'', CacheEntryPtr (Some \<lparr>Count = 1, Limit = 5, ResetTime = 102 + windowSize\<rparr>))] \<and>
   backend world_live = ExecErr ## sconst ExecErr \<and>
   clock world_live = 100 ## 101 ## 102 ## sconst 103 \<and>
   map_of (localCache world_live) ''u'' =
     Some (CacheEntryPtr (Some \<lparr>Count = 2, Limit = 5, ResetTime = 1000\<rparr>)) \<and>
   (2 :: int64) <s 5 \<and> \<not> (1000 :: int64) <s 101 \<and>
   fst (Hybrid_RateLimit world_live ''u'' 5) = Return True \<and>
   localCache (snd (Hybrid_RateLimit world_live ''u'' 5)) =
     [(''u'', CacheEntryPtr (Some \<lparr>Count = 3, Limit = 5, ResetTime = 1000\<rparr>))]"
proof -
  have f1: "backend (world_fresh (ExecErr ## sconst ExecErr)) = ExecErr ## sconst ExecErr"
    by (simp add: world_fresh_def NewHybridRateLimitRepository_def)
  have f2: "clock (world_fresh (ExecErr ## sconst ExecErr)) = 100 ## 101 ## 102 ## sconst 103"
    by (simp add: world_fresh_def NewHybridRateLimitRepository_def)
  have f3: "localCache (world_fresh (ExecErr ## sconst ExecErr)) = []"
    by (simp add: world_fresh_def NewHybridRateLimitRepository_def)
  have x1: "backend world_expired = ExecErr ## sconst ExecErr"
    by (simp add: world_expired_def world_with_def)
  have x2: "clock world_expired = 100 ## 101 ## 102 ## sconst 103"
    by (simp add: world_expired_def world_with_def)
  have x3: "localCache world_expired =
     [(''u'', CacheEntryPtr (Some \<lparr>Count = 5, Limit = 5, ResetTime = 50\<rparr>))]"
    by (simp add: world_expired_def world_with_def)
  have l1: "backend world_live = ExecErr ## sconst ExecErr"
    by (simp add: world_live_def world_with_def)
  have l2: "clock world_live = 100 ## 101 ## 102 ## sconst 103"
    by (simp add: world_live_def world_with_def)
  have l3: "localCache world_live =
     [(''u'', CacheEntryPtr (Some \<lparr>Count = 2, Limit = 5, ResetTime = 1000\<rparr>))]"
    by (simp add: world_live_def world_with_def)
  show ?thesis
    using f1 f2 f3 x1 x2 x3 l1 l2 l3
      C6_degraded_mode_counts_locally [OF f1 f2, where userId = "''u''" and limit = 5]
      C6_degraded_mode_counts_locally [OF x1 x2, where userId = "''u''" and limit = 5
        and e = "\<lparr>Count = 5, Limit = 5, ResetTime = 50\<rparr>"]
      C6_degraded_mode_counts_locally [OF l1 l2, where userId = "''u''" and limit = 5
        and e = "\<lparr>Count = 2, Limit = 5, ResetTime = 1000\<rparr>"]
    by (simp add: word_sless_alt)
qed

section \<open>Sign of the decision's fields\<close>

text \<open>
  Claim C7. Every decision of a successful call has \<open>remaining \<ge> 0\<close> and
  \<open>resetIn \<ge> 0\<close>, whatever count and ttl the Store reports, also the ttl reported for a
  key without an expiry.

  The repository clamps \<^verbatim>\<open>remaining\<close> at 0 but returns \<^verbatim>\<open>ttlCmd.Val()\<close> as it is, and
  the hybrid repository and the handler pass it on. For a key without an expiry the TTL
  reply is -1, which arrives as a duration of -1 ns: the decision has a negative
  \<open>resetIn\<close>, through either repository.
\<close>

theorem C7_resetIn_negative_without_expiry:
  "fst (CheckRateLimitWithDetail_Handle RedisRepo (world_fresh (ExecOk 1 (- 1) ## sconst ExecErr))
      \<lparr>UserID = ''u'', cmd_Limit = 5\<rparr>) =
     Return (Inr \<lparr>Remaining = 4, resp_ResetTime = - 1, Allowed = True\<rparr>) \<and>
   fst (CheckRateLimitWithDetail_Handle HybridRepo (world_fresh (ExecOk 1 (- 1) ## sconst ExecErr))
      \<lparr>UserID = ''u'', cmd_Limit = 5\<rparr>) =
     Return (Inr \<lparr>Remaining = 4, resp_ResetTime = - 1, Allowed = True\<rparr>) \<and>
   sint (- 1 :: duration) < 0"
  by (simp add: eval_defs)

text \<open>The same for every reply of the Store, on the Redis repository: \<open>remaining\<close> is not
  negative, and \<open>resetIn\<close> is the ttl the Store reported, whatever its sign.\<close>

lemma detail_handler_passes_the_ttl_on:
  assumes "userId \<noteq> []" and "0 <s limit" and "shd (backend w) = ExecOk c ttl"
  shows "\<exists>r a. fst (CheckRateLimitWithDetail_Handle RedisRepo w
                     \<lparr>UserID = userId, cmd_Limit = limit\<rparr>) =
                 Return (Inr \<lparr>Remaining = r, resp_ResetTime = ttl, Allowed = a\<rparr>) \<and> 0 \<le>s r"
  using assms
  by (simp add: CheckRateLimitWithDetail_Handle_def Redis_RateLimitWithDetail_ok
      positive_limit_passes signed.not_less)

section \<open>The pipeline is not one atomic unit\<close>

text \<open>
  Claim C8. The Store adapter's increment applies "create the key with a TTL if absent"
  and "increment" as one atomic unit against the backend, so that no interleaving can
  leave a counter without an expiry.

  The source queues \<^verbatim>\<open>SetNX\<close>, \<^verbatim>\<open>Incr\<close> and \<^verbatim>\<open>TTL\<close> on a plain pipeline, under the comment
  "Use Redis pipeline for atomic operations". With the counter of \<open>u\<close> about to expire at
  1000, the server reaches \<^verbatim>\<open>SetNX\<close> at 999, where the key still exists and nothing is
  written, and \<^verbatim>\<open>Incr\<close> at 1000, where the key is gone: the counter is created with value
  1 and no expiry, and \<^verbatim>\<open>TTL\<close> answers -1. It never resets. The same happens with the
  pipelines of two callers interleaved (the counter ends at 2 without an expiry). Had the
  three commands run at one instant, 999 or 1000, the counter would have kept or received
  an expiry.
\<close>

theorem C8_counter_left_without_expiry:
  "issued (snd (Redis_RateLimitWithDetail (world_fresh (sconst ExecErr)) ''u'' 5)) =
     [[SetNX ''rate_limit:u'' 0 windowSize, Incr ''rate_limit:u'', TTL ''rate_limit:u'']] \<and>
   redis_run keyspace_expiring
     (zip [999, 1000, 1000]
        (hd (issued (snd (Redis_RateLimitWithDetail (world_fresh (sconst ExecErr)) ''u'' 5)))))
     ''rate_limit:u'' = Some (1, None) \<and>
   redis_ttl
     (redis_run keyspace_expiring
        (zip [999, 1000, 1000]
           (hd (issued (snd (Redis_RateLimitWithDetail (world_fresh (sconst ExecErr)) ''u'' 5))))))
     1000 ''rate_limit:u'' = - 1 \<and>
   redis_run keyspace_expiring
     [(999, SetNX ''rate_limit:u'' 0 windowSize), (999, SetNX ''rate_limit:u'' 0 windowSize),
      (1000, Incr ''rate_limit:u''), (1000, Incr ''rate_limit:u''),
      (1000, TTL ''rate_limit:u''), (1000, TTL ''rate_limit:u'')]
     ''rate_limit:u'' = Some (2, None) \<and>
   redis_run keyspace_expiring
     (zip [999, 999, 999]
        (hd (issued (snd (Redis_RateLimitWithDetail (world_fresh (sconst ExecErr)) ''u'' 5)))))
     ''rate_limit:u'' = Some (6, Some 1000) \<and>
   redis_run keyspace_expiring
     (zip [1000, 1000, 1000]
        (hd (issued (snd (Redis_RateLimitWithDetail (world_fresh (sconst ExecErr)) ''u'' 5)))))
     ''rate_limit:u'' = Some (1, Some (1000 + windowSize))"
  by (simp add: eval_defs windowSize_def keyspace_expiring_def redis_get_def redis_ttl_def)

text \<open>Executed at one instant (one at which a full window does not overflow the clock),
  the pipeline leaves the counter with an expiry whenever the key was absent or had one:
  the counter without an expiry comes from the commands being executed apart.\<close>

lemma pipeline_at_one_instant_keeps_an_expiry:
  assumes "redis_get db now key = None \<or> (\<exists>v expiry. redis_get db now key = Some (v, Some expiry))"
      and "now <s now + windowSize"
  shows "\<exists>v expiry. redis_run db [(now, SetNX key 0 windowSize), (now, Incr key), (now, TTL key)] key
           = Some (v, Some expiry)"
  using assms
  by (auto simp: redis_get_def split: option.splits prod.splits if_splits)

section \<open>The fast-path denial changes nothing\<close>

text \<open>
  Claim C9. When the local check denies (the entry is present, not expired at the clock
  reading \<open>t1\<close>, and its count is at least the limit), both \<^verbatim>\<open>RateLimit\<close> and
  \<^verbatim>\<open>RateLimitWithDetail\<close> answer with a denial and leave the state as it was: the local
  table, the backend and the list of pipelines sent are those of before, and only clock
  readings were consumed.
\<close>

theorem C9_fast_path_denial_is_a_pure_read:
  assumes "map_of (localCache w) userId = Some (CacheEntryPtr (Some e))"
      and "clock w = t1 ## t2 ## ts"
      and "t1 \<le>s ResetTime e"
      and "limit \<le>s Count e"
  shows "Hybrid_RateLimit w userId limit = (Return False, w\<lparr>clock := t2 ## ts\<rparr>) \<and>
         (\<exists>ttl. Hybrid_RateLimitWithDetail w userId limit =
                  (Return (Inr (0, ttl)), w\<lparr>clock := ts\<rparr>))"
  using assms
  by (simp add: Hybrid_RateLimit_def Hybrid_RateLimitWithDetail_def checkLocalCache_entry
      time_Now_def signed.not_less [symmetric])

text \<open>The theorem at \<open>world_exhausted\<close>.\<close>

theorem C9_fast_path_denial_is_a_pure_read_witness:
  "map_of (localCache world_exhausted) ''u'' =
     Some (CacheEntryPtr (Some \<lparr>Count = 5, Limit = 5, ResetTime = 1000\<rparr>)) \<and>
   clock world_exhausted = 100 ## 101 ## 102 ## sconst 103 \<and>
   (100 :: int64) \<le>s 1000 \<and> (5 :: go_int) \<le>s 5 \<and>
   Hybrid_RateLimit world_exhausted ''u'' 5 =
     (Return False, world_exhausted\<lparr>clock := 101 ## 102 ## sconst 103\<rparr>) \<and>
   (\<exists>ttl. Hybrid_RateLimitWithDetail world_exhausted ''u'' 5 =
            (Return (Inr (0, ttl)), world_exhausted\<lparr>clock := 102 ## sconst 103\<rparr>))"
proof -
  have h1: "map_of (localCache world_exhausted) ''u'' =
     Some (CacheEntryPtr (Some \<lparr>Count = 5, Limit = 5, ResetTime = 1000\<rparr>))"
    by (simp add: world_exhausted_def world_with_def)
  have h2: "clock world_exhausted = 100 ## 101 ## 102 ## sconst 103"
    by (simp add: world_exhausted_def world_with_def)
  have h3: "(100 :: int64) \<le>s ResetTime \<lparr>Count = 5, Limit = 5, ResetTime = 1000\<rparr>" by simp
  have h4: "(5 :: go_int) \<le>s Count \<lparr>Count = 5, Limit = 5, ResetTime = 1000\<rparr>" by simp
  show ?thesis
    using h1 h2 h3 h4 C9_fast_path_denial_is_a_pure_read [OF h1 h2 h3 h4]
    by simp
qed

section \<open>Every table value is a non-nil entry pointer\<close>

text \<open>
  Claim C10. Every value of the local table is a non-nil \<^verbatim>\<open>*CacheEntry\<close>: the table of a
  new repository is empty, and from a table with that property each operation (the local
  check, the overwrite with the Store's values, the local increment, the sweep, and the two
  entry points that combine them) returns without a panic, so that no type assertion or
  field access of a reader failed, and leaves a table with that property.
\<close>

theorem C10_table_values_stay_entry_pointers:
  assumes ok: "cache_ok (localCache w)"
  shows
   "cache_ok (localCache (NewHybridRateLimitRepository clk be)) \<and>
    fst (checkLocalCache w userId limit) \<noteq> Panic \<and>
    cache_ok (localCache (snd (checkLocalCache w userId limit))) \<and>
    fst (updateLocalCacheWithRedisValues w userId limit v ttl) \<noteq> Panic \<and>
    cache_ok (localCache (snd (updateLocalCacheWithRedisValues w userId limit v ttl))) \<and>
    fst (incrementLocalCache w userId limit) \<noteq> Panic \<and>
    cache_ok (localCache (snd (incrementLocalCache w userId limit))) \<and>
    fst (CleanupExpiredEntries w) \<noteq> Panic \<and>
    cache_ok (localCache (snd (CleanupExpiredEntries w))) \<and>
    fst (Hybrid_RateLimit w userId limit) \<noteq> Panic \<and>
    cache_ok (localCache (snd (Hybrid_RateLimit w userId limit))) \<and>
    fst (Hybrid_RateLimitWithDetail w userId limit) \<noteq> Panic \<and>
    cache_ok (localCache (snd (Hybrid_RateLimitWithDetail w userId limit)))"
proof -
  have new: "cache_ok (localCache (NewHybridRateLimitRepository clk be))"
    by (simp add: NewHybridRateLimitRepository_def cache_ok_def)
  note check = checkLocalCache_ok [OF ok surjective_pairing, of userId limit]
  note update = updateLocalCacheWithRedisValues_ok [OF ok surjective_pairing, of userId limit v ttl]
  note incr = incrementLocalCache_ok [OF ok surjective_pairing, of userId limit]
  note sweep = CleanupExpiredEntries_ok [OF ok surjective_pairing]
  note allow = Hybrid_RateLimit_ok [OF ok surjective_pairing, of userId limit]
  note detail = Hybrid_RateLimitWithDetail_ok [OF ok surjective_pairing, of userId limit]
  from new check update incr sweep allow detail show ?thesis by blast
qed

text \<open>The theorem at \<open>world_exhausted\<close>, whose table holds one entry.\<close>

theorem C10_table_values_stay_entry_pointers_witness:
  "cache_ok (localCache world_exhausted) \<and>
   cache_ok (localCache (NewHybridRateLimitRepository (sconst 100) (sconst ExecErr))) \<and>
   fst (checkLocalCache world_exhausted ''u'' 5) \<noteq> Panic \<and>
   cache_ok (localCache (snd (checkLocalCache world_exhausted ''u'' 5))) \<and>
   fst (updateLocalCacheWithRedisValues world_exhausted ''u'' 5 3 30000000000) \<noteq> Panic \<and>
   cache_ok (localCache (snd (updateLocalCacheWithRedisValues world_exhausted ''u'' 5 3 30000000000))) \<and>
   fst (incrementLocalCache world_exhausted ''u'' 5) \<noteq> Panic \<and>
   cache_ok (localCache (snd (incrementLocalCache world_exhausted ''u'' 5))) \<and>
   fst (CleanupExpiredEntries world_exhausted) \<noteq> Panic \<and>
   cache_ok (localCache (snd (CleanupExpiredEntries world_exhausted))) \<and>
   fst (Hybrid_RateLimit world_exhausted ''u'' 5) \<noteq> Panic \<and>
   cache_ok (localCache (snd (Hybrid_RateLimit world_exhausted ''u'' 5))) \<and>
   fst (Hybrid_RateLimitWithDetail world_exhausted ''u'' 5) \<noteq> Panic \<and>
   cache_ok (localCache (snd (Hybrid_RateLimitWithDetail world_exhausted ''u'' 5)))"
proof -
  have h: "cache_ok (localCache world_exhausted)"
    by (simp add: world_exhausted_def world_with_def cache_ok_def)
  show ?thesis
    using h C10_table_values_stay_entry_pointers [OF h, where clk = "sconst 100"
        and be = "sconst ExecErr" and userId = "''u''" and limit = 5 and v = 3
        and ttl = 30000000000]
    by blast
qed

end
